theory Spec2Isabelle
  imports Complex_Main "HOL-Library.Char_ord" "HOL-Library.List_Lexorder"
begin

section \<open>Ticker detection (finpulse/scrapers/base\_scraper.py)\<close>

subsection \<open>Characters and case\<close>

text \<open>
  A text is a \<open>string\<close>; the model reads it as ASCII. \<open>str.upper\<close> maps the letters
  \<open>a\<close> to \<open>z\<close> to \<open>A\<close> to \<open>Z\<close> and leaves every other ASCII character alone; a
  character above 127 is left alone too. Strings are compared as Python compares them:
  lexicographically by character code (the order of \<open>Char_ord\<close> and \<open>List_Lexorder\<close>).
\<close>

definition upper_char :: "char \<Rightarrow> char" where
  "upper_char c =
     (if CHR ''a'' \<le> c \<and> c \<le> CHR ''z'' then char_of (of_char c - (32::nat)) else c)"

definition upper :: "string \<Rightarrow> string" where
  "upper s = map upper_char s"

text \<open>
  The whitespace of the regular expression class \<open>\s\<close> on ASCII: space, tab, line
  feed, vertical tab, form feed, carriage return and the four separators 0x1C to 0x1F.
  The word characters of \<open>\b\<close> on ASCII: letters, digits and underscore.
\<close>

definition is_space :: "char \<Rightarrow> bool" where
  "is_space c = (c \<in> set [CHR '' '', CHR 0x09, CHR 0x0A, CHR 0x0B, CHR 0x0C, CHR 0x0D,
                           CHR 0x1C, CHR 0x1D, CHR 0x1E, CHR 0x1F])"

definition is_word :: "char \<Rightarrow> bool" where
  "is_word c = ((CHR ''A'' \<le> c \<and> c \<le> CHR ''Z'') \<or> (CHR ''a'' \<le> c \<and> c \<le> CHR ''z'')
               \<or> (CHR ''0'' \<le> c \<and> c \<le> CHR ''9'') \<or> c = CHR ''_'')"

subsection \<open>The regular expressions of the three patterns\<close>

text \<open>
  \<open>re.findall\<close> is a backtracking matcher. The model covers the constructs the three
  patterns use: a single-character item (a literal, a range \<open>[A-Z]\<close>, \<open>\s\<close>), a literal
  word, the boundary \<open>\b\<close>, sequence, alternation, the greedy repetitions \<open>{m,n}\<close> and
  \<open>+\<close> of a single-character item, and a numbered capturing group.

  \<open>rmatch r s (i, cs)\<close> lists, in the order in which backtracking tries them, the ways
  in which \<open>r\<close> matches \<open>s\<close> from position \<open>i\<close>: the end position and the groups
  captured so far (newest first). A greedy repetition tries the longest run first.
\<close>

datatype atom = Chr char | Range char char | Space

fun atom_ok :: "atom \<Rightarrow> char \<Rightarrow> bool" where
  "atom_ok (Chr c) x = (x = c)"
| "atom_ok (Range a b) x = (a \<le> x \<and> x \<le> b)"
| "atom_ok Space x = is_space x"

datatype rx = Atom atom | Lit string | WordB | Seq rx rx | Alt rx rx
  | Rep nat nat atom | Plus atom | Grp nat rx

type_synonym caps = "(nat \<times> string) list"

definition run :: "atom \<Rightarrow> string \<Rightarrow> nat \<Rightarrow> nat" where
  "run a s i = length (takeWhile (atom_ok a) (drop i s))"

definition word_at :: "string \<Rightarrow> nat \<Rightarrow> bool" where
  "word_at s i = (i < length s \<and> is_word (s ! i))"

definition word_before :: "string \<Rightarrow> nat \<Rightarrow> bool" where
  "word_before s i = (0 < i \<and> word_at s (i - 1))"

fun rmatch :: "rx \<Rightarrow> string \<Rightarrow> nat \<times> caps \<Rightarrow> (nat \<times> caps) list" where
  "rmatch (Atom a) s (i, cs) =
     (if i < length s \<and> atom_ok a (s ! i) then [(Suc i, cs)] else [])"
| "rmatch (Lit w) s (i, cs) =
     (if take (length w) (drop i s) = w then [(i + length w, cs)] else [])"
| "rmatch WordB s (i, cs) = (if word_before s i \<noteq> word_at s i then [(i, cs)] else [])"
| "rmatch (Seq r1 r2) s (i, cs) = concat (map (\<lambda>st. rmatch r2 s st) (rmatch r1 s (i, cs)))"
| "rmatch (Alt r1 r2) s (i, cs) = rmatch r1 s (i, cs) @ rmatch r2 s (i, cs)"
| "rmatch (Rep lo hi a) s (i, cs) =
     map (\<lambda>k. (i + k, cs)) (rev [lo ..< Suc (min hi (run a s i))])"
| "rmatch (Plus a) s (i, cs) = map (\<lambda>k. (i + k, cs)) (rev [1 ..< Suc (run a s i)])"
| "rmatch (Grp g r) s (i, cs) =
     map (\<lambda>(j, cs'). (j, (g, take (j - i) (drop i s)) # cs')) (rmatch r s (i, cs))"

fun ngroups :: "rx \<Rightarrow> nat" where
  "ngroups (Seq r1 r2) = ngroups r1 + ngroups r2"
| "ngroups (Alt r1 r2) = ngroups r1 + ngroups r2"
| "ngroups (Grp g r) = Suc (ngroups r)"
| "ngroups _ = 0"

definition group :: "caps \<Rightarrow> nat \<Rightarrow> string" where
  "group cs g = (case map_of cs g of None \<Rightarrow> [] | Some w \<Rightarrow> w)"

text \<open>
  \<open>scan r s i\<close> is the search loop of \<open>findall\<close>: the leftmost match at or after \<open>i\<close>,
  taken with the first alternative that succeeds, then the search goes on from the end of
  that match. After an empty match it goes on one character further; the three patterns
  match two characters at least, so that rule is never used here.
\<close>

function scan :: "rx \<Rightarrow> string \<Rightarrow> nat \<Rightarrow> (nat \<times> nat \<times> caps) list" where
  "scan r s i =
     (if length s < i then []
      else case rmatch r s (i, []) of
             [] \<Rightarrow> scan r s (Suc i)
           | (j, cs) # _ \<Rightarrow> (i, j, cs) # scan r s (if j \<le> i then Suc i else j))"
  by pat_completeness auto
termination
  by (relation "measure (\<lambda>(r, s, i). Suc (length s) - i)") auto

declare scan.simps [simp del]

text \<open>
  What \<open>findall\<close> returns depends on the number of groups of the pattern: the whole
  match when there is none, the group when there is one (a list of strings in both cases),
  and the tuple of all groups when there are several. A group that took no part in the
  match is the empty string.
\<close>

datatype matches = Strs "string list" | Tups "string list list"

definition findall :: "rx \<Rightarrow> string \<Rightarrow> matches" where
  "findall r s =
     (let n = ngroups r; ms = scan r s 0 in
      if n = 0 then Strs (map (\<lambda>(i, j, cs). take (j - i) (drop i s)) ms)
      else if n = 1 then Strs (map (\<lambda>(i, j, cs). group cs 1) ms)
      else Tups (map (\<lambda>(i, j, cs). map (group cs) [1 ..< Suc n]) ms))"

subsection \<open>\<open>_detect_ticker_symbols\<close>\<close>

text \<open>
  The three patterns of the source, in its order:
  \<^verbatim>\<open>\$([A-Z]{1,5})\<close>, \<^verbatim>\<open>\b([A-Z]{1,5})\s+stock\<close> and
  \<^verbatim>\<open>\b(NASDAQ:|NYSE:)([A-Z]{1,5})\<close>.
\<close>

definition dollar_pattern :: rx where
  "dollar_pattern = Seq (Atom (Chr CHR ''$'')) (Grp 1 (Rep 1 5 (Range CHR ''A'' CHR ''Z'')))"

definition stock_pattern :: rx where
  "stock_pattern =
     Seq WordB (Seq (Grp 1 (Rep 1 5 (Range CHR ''A'' CHR ''Z'')))
                    (Seq (Plus Space) (Lit ''stock'')))"

definition exchange_pattern :: rx where
  "exchange_pattern =
     Seq WordB (Seq (Grp 1 (Alt (Lit ''NASDAQ:'') (Lit ''NYSE:'')))
                    (Grp 2 (Rep 1 5 (Range CHR ''A'' CHR ''Z''))))"

definition patterns :: "rx list" where
  "patterns = [dollar_pattern, stock_pattern, exchange_pattern]"

definition false_positives :: "string set" where
  "false_positives = {''THE'', ''AND'', ''FOR'', ''ARE'', ''BUT'', ''NOT'', ''YOU'', ''ALL'',
     ''CAN'', ''HER'', ''WAS'', ''ONE'', ''OUR'', ''OUT'', ''DAY'', ''GET'', ''HAS'', ''HIM'',
     ''HIS'', ''HOW'', ''ITS'', ''MAY'', ''NEW'', ''NOW'', ''OLD'', ''SEE'', ''TWO'', ''WHO'',
     ''BOY'', ''DID'', ''ITS'', ''LET'', ''PUT'', ''SAY'', ''SHE'', ''TOO'', ''USE''}"

text \<open>
  One round of the loop over the patterns. When the first match is a tuple, the last
  component of every tuple goes into the set; otherwise the matches themselves do.
\<close>

definition update_from :: "string set \<Rightarrow> matches \<Rightarrow> string set" where
  "update_from T ms =
     (case ms of
        Tups (t # ts) \<Rightarrow> T \<union> set (map last (t # ts))
      | Tups [] \<Rightarrow> T
      | Strs ws \<Rightarrow> T \<union> set ws)"

definition detect_ticker_symbols :: "string \<Rightarrow> string list" where
  "detect_ticker_symbols text =
     (let tickers = foldl (\<lambda>T pattern. update_from T (findall pattern (upper text))) {} patterns;
          kept = Set.filter (\<lambda>t. t \<notin> false_positives \<and> length t \<le> 5) tickers
      in sorted_list_of_set kept)"

text \<open>The set that the loop over the patterns builds from an upper-cased text.\<close>

definition candidates :: "string \<Rightarrow> string set" where
  "candidates s = foldl (\<lambda>T pattern. update_from T (findall pattern s)) {} patterns"

text \<open>The shape of a ticker symbol: one to five letters \<open>A\<close> to \<open>Z\<close>.\<close>

definition ticker_shape :: "string \<Rightarrow> bool" where
  "ticker_shape t =
     (1 \<le> length t \<and> length t \<le> 5 \<and> list_all (\<lambda>c. CHR ''A'' \<le> c \<and> c \<le> CHR ''Z'') t)"

section \<open>Sentiment analysis (finpulse/sentiment/analyzer.py)\<close>

text \<open>
  The result of an analysis is a Python dictionary from key names to numbers and strings.
  Floating-point numbers are modelled as real numbers: the arithmetic of the model is the
  exact arithmetic that the floating-point code approximates.

  The text that is analysed is a Python string of any characters: the list of its code
  points, so that \<open>len\<close> counts code points and whitespace is the whitespace of
  Unicode. \<open>codes\<close> turns a literal into its code points.
\<close>

type_synonym pytext = "nat list"

definition codes :: "string \<Rightarrow> pytext" where
  "codes s = map of_char s"

datatype pyval = PyFloat real | PyInt int | PyStr string

type_synonym pydict = "string \<rightharpoonup> pyval"

datatype error = ValueError string

text \<open>
  The two sentiment libraries are outside the repository. Each is a function of the text:
  \<open>polarity_scores\<close> is the dictionary that VADER returns, \<open>blob_sentiment\<close> the
  polarity and subjectivity that TextBlob returns. A function always has a value: the
  model covers the calls in which the library returns one, and what it says of
  \<open>analyze_text\<close> not raising is said of those calls.
\<close>

record vader_scores =
  neg :: real
  neu :: real
  pos :: real
  compound :: real

record libraries =
  polarity_scores :: "pytext \<Rightarrow> vader_scores"
  blob_sentiment :: "pytext \<Rightarrow> real \<times> real"

definition analyze_vader :: "libraries \<Rightarrow> pytext \<Rightarrow> pydict" where
  "analyze_vader lib text =
     (let scores = polarity_scores lib text;
          c = compound scores;
          label = (if c \<ge> 0.05 then ''positive''
                   else if c \<le> - 0.05 then ''negative''
                   else ''neutral'')
      in [''compound_score'' \<mapsto> PyFloat c,
          ''positive_score'' \<mapsto> PyFloat (pos scores),
          ''negative_score'' \<mapsto> PyFloat (neg scores),
          ''neutral_score'' \<mapsto> PyFloat (neu scores),
          ''sentiment_label'' \<mapsto> PyStr label,
          ''confidence'' \<mapsto> PyFloat (max (max (pos scores) (neg scores)) (neu scores))])"

definition analyze_textblob :: "libraries \<Rightarrow> pytext \<Rightarrow> pydict" where
  "analyze_textblob lib text =
     (let (polarity, subjectivity) = blob_sentiment lib text;
          pos_score = (if polarity > 0 then polarity else 0);
          neg_score = (if polarity > 0 then 0 else \<bar>polarity\<bar>);
          neu_score = 1 - \<bar>polarity\<bar>;
          total = pos_score + neg_score + neu_score;
          pos_score = (if total > 0 then pos_score / total else pos_score);
          neg_score = (if total > 0 then neg_score / total else neg_score);
          neu_score = (if total > 0 then neu_score / total else neu_score);
          label = (if polarity \<ge> 0.1 then ''positive''
                   else if polarity \<le> - 0.1 then ''negative''
                   else ''neutral'')
      in [''compound_score'' \<mapsto> PyFloat polarity,
          ''positive_score'' \<mapsto> PyFloat pos_score,
          ''negative_score'' \<mapsto> PyFloat neg_score,
          ''neutral_score'' \<mapsto> PyFloat neu_score,
          ''sentiment_label'' \<mapsto> PyStr label,
          ''confidence'' \<mapsto> PyFloat \<bar>polarity\<bar>,
          ''subjectivity'' \<mapsto> PyFloat subjectivity])"

text \<open>
  The whitespace of \<open>str.split\<close> is that of \<open>str.isspace\<close>: the code points 9 to 13,
  28 to 32, U+0085, U+00A0, U+1680, U+2000 to U+200A, U+2028, U+2029, U+202F, U+205F and
  U+3000. \<open>text.split()\<close> gives the maximal runs of characters that are not whitespace.
\<close>

definition unicode_space :: "nat \<Rightarrow> bool" where
  "unicode_space n =
     (n \<in> set [0x09, 0x0A, 0x0B, 0x0C, 0x0D, 0x1C, 0x1D, 0x1E, 0x1F, 0x20, 0x85, 0xA0,
               0x1680, 0x2000, 0x2001, 0x2002, 0x2003, 0x2004, 0x2005, 0x2006, 0x2007,
               0x2008, 0x2009, 0x200A, 0x2028, 0x2029, 0x202F, 0x205F, 0x3000])"

function split_ws :: "pytext \<Rightarrow> pytext list" where
  "split_ws s =
     (let t = dropWhile unicode_space s in
      if t = [] then []
      else takeWhile (\<lambda>c. \<not> unicode_space c) t
             # split_ws (dropWhile (\<lambda>c. \<not> unicode_space c) t))"
  by pat_completeness auto
termination
proof (relation "measure length", goal_cases)
  case 1
  show ?case by simp
next
  case (2 s t)
  then obtain c cs where t: "t = c # cs" and c: "\<not> unicode_space c"
    by (metis dropWhile_eq_Nil_conv hd_dropWhile list.collapse takeWhile_dropWhile_id
        takeWhile_eq_all_conv)
  have "length (dropWhile (\<lambda>c. \<not> unicode_space c) t) \<le> length cs"
    using t c by (simp add: length_dropWhile_le)
  also have "\<dots> < length t" using t by simp
  also have "\<dots> \<le> length s" using 2 by (simp add: length_dropWhile_le)
  finally show ?case by simp
qed

declare split_ws.simps [simp del]

text \<open>\<open>round(x, 2)\<close>: to the nearest hundredth, a tie to the even neighbour.\<close>

definition round_half_even :: "real \<Rightarrow> int" where
  "round_half_even y =
     (let f = \<lfloor>y\<rfloor>; d = y - of_int f in
      if d < 1 / 2 then f else if d > 1 / 2 then f + 1 else if even f then f else f + 1)"

definition round2 :: "real \<Rightarrow> real" where
  "round2 x = of_int (round_half_even (x * 100)) / 100"

text \<open>
  \<open>analyze_text\<close>. The two readings of the clock, \<open>t0\<close> before the model runs and
  \<open>t1\<close> when the metadata are built, are parameters. An unknown model name raises
  \<open>ValueError\<close>; the metadata are written over the result of the model.
\<close>

definition analyze_text :: "libraries \<Rightarrow> real \<Rightarrow> real \<Rightarrow> pytext \<Rightarrow> string \<Rightarrow> error + pydict" where
  "analyze_text lib t0 t1 text model =
     (if model = ''vader'' then
        Inr ((analyze_vader lib text)
              (''model_name'' \<mapsto> PyStr model,
               ''text_length'' \<mapsto> PyInt (int (length text)),
               ''word_count'' \<mapsto> PyInt (int (length (split_ws text))),
               ''processing_time_ms'' \<mapsto> PyFloat (round2 ((t1 - t0) * 1000))))
      else if model = ''textblob'' then
        Inr ((analyze_textblob lib text)
              (''model_name'' \<mapsto> PyStr model,
               ''text_length'' \<mapsto> PyInt (int (length text)),
               ''word_count'' \<mapsto> PyInt (int (length (split_ws text))),
               ''processing_time_ms'' \<mapsto> PyFloat (round2 ((t1 - t0) * 1000))))
      else Inl (ValueError (''Unknown model: '' @ model)))"

text \<open>The value under a key of what \<open>analyze_text\<close> returns; none when it raises.\<close>

definition field :: "error + pydict \<Rightarrow> string \<Rightarrow> pyval option" where
  "field res k = (case res of Inl e \<Rightarrow> None | Inr r \<Rightarrow> r k)"

text \<open>Libraries with fixed answers, for the concrete instances below.\<close>

definition fixed_libraries :: "real \<Rightarrow> libraries" where
  "fixed_libraries p =
     \<lparr>polarity_scores = (\<lambda>t. \<lparr>neg = 0, neu = 0, pos = 0, compound = 0\<rparr>),
      blob_sentiment = (\<lambda>t. (p, 1 / 2))\<rparr>"

section \<open>The fetcher (finpulse/scrapers/base\_scraper.py)\<close>

subsection \<open>State\<close>

record stats =
  requests_made :: int
  successful_requests :: int
  failed_requests :: int
  items_scraped :: int
  start_time :: "real option"
  end_time :: "real option"

record scraper =
  delay_seconds :: real
  max_retries :: int
  timeout :: int
  user_agent :: string
  stats :: stats

text \<open>\<open>__init__\<close>: the configuration is stored and every counter starts at zero.\<close>

definition init :: "real \<Rightarrow> int \<Rightarrow> int \<Rightarrow> string option \<Rightarrow> scraper" where
  "init delay retries tmo agent =
     \<lparr>delay_seconds = delay, max_retries = retries, timeout = tmo,
      user_agent = (case agent of
                      None \<Rightarrow> ''FinPulse/1.0.0 (+https://github.com/aadheeshn26/finpulse)''
                    | Some u \<Rightarrow> if u = [] then
                        ''FinPulse/1.0.0 (+https://github.com/aadheeshn26/finpulse)'' else u),
      stats = \<lparr>requests_made = 0, successful_requests = 0, failed_requests = 0,
               items_scraped = 0, start_time = None, end_time = None\<rparr>\<rparr>"

text \<open>\<open>start_scraping\<close> and \<open>end_scraping\<close>; \<open>now\<close> is the reading of the clock.\<close>

definition start_scraping :: "scraper \<Rightarrow> real \<Rightarrow> scraper" where
  "start_scraping s now = s\<lparr>stats := (stats s)\<lparr>start_time := Some now\<rparr>\<rparr>"

definition end_scraping :: "scraper \<Rightarrow> real \<Rightarrow> scraper" where
  "end_scraping s now = s\<lparr>stats := (stats s)\<lparr>end_time := Some now\<rparr>\<rparr>"

subsection \<open>The session and its retries\<close>

text \<open>
  \<open>_create_session\<close> mounts an adapter with the retry strategy
  \<open>Retry(total = max_retries, status_forcelist = [429, 500, 502, 503, 504])\<close>. The
  session belongs to the HTTP library, not to the repository; the model keeps what the
  strategy fixes. The server is a function from the number of an attempt to what that
  attempt meets: a status code with a body, a failure to connect, or a failure while the
  answer is read. An answer with a status of the list, to a method that may be repeated,
  is retried while retries are left; so is a failure to connect, for every method, and a
  failure to read, for a method that may be repeated. When no retry is left, or the
  failure is not retried, the session raises an error of the class
  \<open>RequestException\<close>. Any other answer is returned as it is. Redirects and the
  \<open>Retry-After\<close> header are not modelled. \<open>send n m srv k\<close> makes attempt \<open>k\<close> with
  \<open>n\<close> retries left and returns the outcome together with the number of attempts made.
\<close>

datatype attempt = Http nat string | ConnectFail | ReadFail

datatype outcome = Response nat string | RequestException string | OtherException string

definition status_forcelist :: "nat list" where
  "status_forcelist = [429, 500, 502, 503, 504]"

definition allowed_methods :: "string list" where
  "allowed_methods = [''DELETE'', ''GET'', ''HEAD'', ''OPTIONS'', ''PUT'', ''TRACE'']"

definition is_retry :: "string \<Rightarrow> nat \<Rightarrow> bool" where
  "is_retry method status = (upper method \<in> set allowed_methods \<and> status \<in> set status_forcelist)"

definition is_read_retry :: "string \<Rightarrow> bool" where
  "is_read_retry method = (upper method \<in> set allowed_methods)"

fun send :: "nat \<Rightarrow> string \<Rightarrow> (nat \<Rightarrow> attempt) \<Rightarrow> nat \<Rightarrow> outcome \<times> nat" where
  "send 0 m srv k =
     (case srv k of
        Http status body \<Rightarrow>
          if is_retry m status then (RequestException ''RetryError'', Suc k)
          else (Response status body, Suc k)
      | ConnectFail \<Rightarrow> (RequestException ''ConnectionError'', Suc k)
      | ReadFail \<Rightarrow> (RequestException ''ConnectionError'', Suc k))"
| "send (Suc n) m srv k =
     (case srv k of
        Http status body \<Rightarrow>
          if is_retry m status then send n m srv (Suc k)
          else (Response status body, Suc k)
      | ConnectFail \<Rightarrow> send n m srv (Suc k)
      | ReadFail \<Rightarrow>
          if is_read_retry m then send n m srv (Suc k)
          else (RequestException ''ConnectionError'', Suc k))"

definition session_request :: "int \<Rightarrow> string \<Rightarrow> (nat \<Rightarrow> attempt) \<Rightarrow> outcome \<times> nat" where
  "session_request retries method srv = send (nat retries) method srv 0"

subsection \<open>\<open>_make_request\<close>\<close>

text \<open>
  \<open>make_request s out\<close> is one call on the scraper \<open>s\<close>, where \<open>out\<close> is how the body
  of the \<open>try\<close> block ends: the session returns a response, or an error of the class
  \<open>RequestException\<close> is raised, or an error of another class is raised (for instance
  the \<open>TypeError\<close> of Python when the keyword arguments passed on to the session repeat
  \<open>timeout\<close>). The handler catches the class \<open>RequestException\<close> only, so an error of
  another class leaves the function. The counter of requests is incremented before the
  \<open>try\<close> block. The result is what the caller receives (\<open>Inr\<close> the returned value,
  \<open>Inl\<close> the name of the error that leaves the function) and the scraper after the
  call.

  The rate limit: after the increment, every request but the first of the scraper waits
  \<open>delay_seconds\<close> before it is sent. The wait changes nothing in the state;
  \<open>request_delay\<close> is the time a call on \<open>s\<close> waits.
\<close>

type_synonym response = "nat \<times> string"

definition count_request :: "scraper \<Rightarrow> scraper" where
  "count_request s = s\<lparr>stats := (stats s)\<lparr>requests_made := requests_made (stats s) + 1\<rparr>\<rparr>"

definition request_delay :: "scraper \<Rightarrow> real" where
  "request_delay s =
     (if requests_made (stats (count_request s)) > 1 then delay_seconds s else 0)"

definition count_success :: "scraper \<Rightarrow> scraper" where
  "count_success s =
     s\<lparr>stats := (stats s)\<lparr>successful_requests := successful_requests (stats s) + 1\<rparr>\<rparr>"

definition count_failure :: "scraper \<Rightarrow> scraper" where
  "count_failure s = s\<lparr>stats := (stats s)\<lparr>failed_requests := failed_requests (stats s) + 1\<rparr>\<rparr>"

definition make_request :: "scraper \<Rightarrow> outcome \<Rightarrow> (string + response option) \<times> scraper" where
  "make_request s out =
     (let s1 = count_request s in
      case out of
        Response status body \<Rightarrow>
          if status = 200 then (Inr (Some (status, body)), count_success s1)
          else (Inr None, count_failure s1)
      | RequestException e \<Rightarrow> (Inr None, count_failure s1)
      | OtherException e \<Rightarrow> (Inl e, s1))"

text \<open>
  A call through the session of the scraper, against a server: the call in which the
  \<open>try\<close> block ends the way the session ends. It covers a scraper whose delay and timeout
  the library accepts; with a negative \<open>delay_seconds\<close> the wait before a later request
  raises \<open>ValueError\<close>, an error of another class in the sense of \<open>make_request\<close>.
\<close>

definition fetch :: "scraper \<Rightarrow> string \<Rightarrow> (nat \<Rightarrow> attempt) \<Rightarrow> (string + response option) \<times> scraper" where
  "fetch s method srv = make_request s (fst (session_request (max_retries s) method srv))"

text \<open>A sequence of calls on one scraper, the state threaded through.\<close>

definition calls :: "scraper \<Rightarrow> outcome list \<Rightarrow> scraper" where
  "calls s outs = foldl (\<lambda>s out. snd (make_request s out)) s outs"

definition returns :: "outcome \<Rightarrow> bool" where
  "returns out = (case out of OtherException e \<Rightarrow> False | _ \<Rightarrow> True)"

text \<open>The invariant of the counters.\<close>

definition balanced :: "scraper \<Rightarrow> bool" where
  "balanced s =
     (requests_made (stats s) = successful_requests (stats s) + failed_requests (stats s))"

text \<open>A scraper with the default configuration, and servers, for the concrete instances below.\<close>

definition default_scraper :: scraper where
  "default_scraper = init 1 3 30 None"

definition always_503 :: "nat \<Rightarrow> attempt" where
  "always_503 k = Http 503 ''Service Unavailable''"

definition twice_503_then_200 :: "nat \<Rightarrow> attempt" where
  "twice_503_then_200 k = (if k < 2 then Http 503 ''Service Unavailable'' else Http 200 ''ok'')"

section \<open>Properties of ticker detection\<close>

subsection \<open>What a match captures\<close>

lemma take_takeWhile_ok:
  "k \<le> length (takeWhile P xs) \<Longrightarrow> length (take k xs) = k \<and> list_all P (take k xs)"
proof (induction xs arbitrary: k)
  case Nil
  then show ?case by simp
next
  case (Cons x xs)
  show ?case
  proof (cases k)
    case 0
    then show ?thesis by simp
  next
    case (Suc m)
    with Cons.prems have px: "P x" and m: "m \<le> length (takeWhile P xs)"
      by (auto split: if_splits)
    from Cons.IH[OF m] px Suc show ?thesis by simp
  qed
qed

lemma take_run_ok:
  "k \<le> run a s i \<Longrightarrow> length (take k (drop i s)) = k \<and> list_all (atom_ok a) (take k (drop i s))"
  unfolding run_def by (rule take_takeWhile_ok)

lemma rmatch_Rep:
  "(j, cs') \<in> set (rmatch (Rep lo hi a) s (i, cs)) \<longleftrightarrow>
     cs' = cs \<and> (\<exists>k. j = i + k \<and> lo \<le> k \<and> k \<le> hi \<and> k \<le> run a s i)"
proof -
  have "set (rmatch (Rep lo hi a) s (i, cs)) = (\<lambda>k. (i + k, cs)) ` {lo ..< Suc (min hi (run a s i))}"
    by (simp del: upt_Suc)
  then show ?thesis by auto
qed

lemma rmatch_Grp:
  "(j, cs') \<in> set (rmatch (Grp g r) s (i, cs)) \<longleftrightarrow>
     (\<exists>c. (j, c) \<in> set (rmatch r s (i, cs)) \<and> cs' = (g, take (j - i) (drop i s)) # c)"
  by (simp add: image_iff) force

lemma rmatch_Grp_Rep:
  assumes "(j, cs') \<in> set (rmatch (Grp g (Rep lo hi a)) s (i, cs))"
  shows "\<exists>w. cs' = (g, w) # cs \<and> lo \<le> length w \<and> length w \<le> hi \<and> list_all (atom_ok a) w"
proof -
  from assms obtain k where k: "lo \<le> k" "k \<le> hi" "k \<le> run a s i" and j: "j = i + k"
    and c: "cs' = (g, take (j - i) (drop i s)) # cs"
    unfolding rmatch_Grp rmatch_Rep by blast
  from take_run_ok[OF k(3)] j c k show ?thesis by auto
qed

lemma scan_sound: "(i, j, cs) \<in> set (scan r s k) \<Longrightarrow> (j, cs) \<in> set (rmatch r s (i, []))"
proof (induction r s k rule: scan.induct)
  case (1 r s k)
  show ?case
  proof (cases "length s < k")
    case True
    with "1.prems" show ?thesis by (subst (asm) scan.simps) simp
  next
    case False
    show ?thesis
    proof (cases "rmatch r s (k, [])")
      case Nil
      with False "1.prems" "1.IH"(1) show ?thesis by (subst (asm) scan.simps) simp
    next
      case (Cons st rest)
      obtain j' cs' where st: "st = (j', cs')" by (cases st)
      from "1.prems" False Cons st
      have "(i, j, cs) = (k, j', cs') \<or> (i, j, cs) \<in> set (scan r s (if j' \<le> k then Suc k else j'))"
        by (subst (asm) scan.simps) simp
      then show ?thesis
      proof
        assume "(i, j, cs) = (k, j', cs')"
        with Cons st show ?thesis by simp
      next
        assume "(i, j, cs) \<in> set (scan r s (if j' \<le> k then Suc k else j'))"
        then show ?thesis by (rule "1.IH"(2)[OF False Cons st[symmetric]])
      qed
    qed
  qed
qed

lemma shape_of_rep:
  "1 \<le> length w \<Longrightarrow> length w \<le> 5 \<Longrightarrow> list_all (atom_ok (Range CHR ''A'' CHR ''Z'')) w
   \<Longrightarrow> ticker_shape w"
  by (simp add: ticker_shape_def list_all_iff)

lemma rmatch_Seq:
  "(j, cs') \<in> set (rmatch (Seq r1 r2) s (i, cs)) \<longleftrightarrow>
     (\<exists>k ck. (k, ck) \<in> set (rmatch r1 s (i, cs)) \<and> (j, cs') \<in> set (rmatch r2 s (k, ck)))"
  by auto

lemma dollar_pattern_group:
  assumes "(j, cs) \<in> set (rmatch dollar_pattern s (i, []))"
  shows "ticker_shape (group cs 1)"
proof -
  let ?G = "Grp 1 (Rep 1 5 (Range CHR ''A'' CHR ''Z''))"
  from assms obtain k c where 2: "(j, cs) \<in> set (rmatch ?G s (k, c))"
    unfolding dollar_pattern_def rmatch_Seq by blast
  from rmatch_Grp_Rep[OF 2] obtain w where w: "cs = (1, w) # c" "1 \<le> length w" "length w \<le> 5"
    "list_all (atom_ok (Range CHR ''A'' CHR ''Z'')) w" by blast
  then show ?thesis by (simp add: group_def shape_of_rep)
qed

lemma rmatch_caps_Plus: "(j, cs') \<in> set (rmatch (Plus a) s (i, cs)) \<Longrightarrow> cs' = cs"
  by (auto simp del: upt_Suc)

lemma rmatch_caps_Lit: "(j, cs') \<in> set (rmatch (Lit w) s (i, cs)) \<Longrightarrow> cs' = cs"
  by (auto split: if_splits)

lemma stock_pattern_group:
  assumes "(j, cs) \<in> set (rmatch stock_pattern s (i, []))"
  shows "ticker_shape (group cs 1)"
proof -
  let ?G = "Grp 1 (Rep 1 5 (Range CHR ''A'' CHR ''Z''))"
  from assms obtain k1 c1 k2 c2 k3 c3 where
    2: "(k2, c2) \<in> set (rmatch ?G s (k1, c1))" and
    3: "(k3, c3) \<in> set (rmatch (Plus Space) s (k2, c2))" and
    4: "(j, cs) \<in> set (rmatch (Lit ''stock'') s (k3, c3))"
    unfolding stock_pattern_def rmatch_Seq by blast
  from rmatch_Grp_Rep[OF 2] obtain w where w: "c2 = (1, w) # c1" "1 \<le> length w" "length w \<le> 5"
    "list_all (atom_ok (Range CHR ''A'' CHR ''Z'')) w" by blast
  from rmatch_caps_Plus[OF 3] rmatch_caps_Lit[OF 4] have "cs = c2" by simp
  with w show ?thesis by (simp add: group_def shape_of_rep)
qed

lemma exchange_pattern_group:
  assumes "(j, cs) \<in> set (rmatch exchange_pattern s (i, []))"
  shows "ticker_shape (group cs 2)"
proof -
  let ?G = "Grp 2 (Rep 1 5 (Range CHR ''A'' CHR ''Z''))"
  from assms obtain k2 c2 where 2: "(j, cs) \<in> set (rmatch ?G s (k2, c2))"
    unfolding exchange_pattern_def rmatch_Seq by blast
  from rmatch_Grp_Rep[OF 2] obtain w where w: "cs = (2, w) # c2" "1 \<le> length w" "length w \<le> 5"
    "list_all (atom_ok (Range CHR ''A'' CHR ''Z'')) w" by blast
  then show ?thesis by (simp add: group_def shape_of_rep)
qed

lemma scan_all:
  assumes "\<And>i j cs. (j, cs) \<in> set (rmatch r s (i, [])) \<Longrightarrow> Q cs"
  shows "\<forall>m \<in> set (scan r s k). Q (snd (snd m))"
proof
  fix m assume m: "m \<in> set (scan r s k)"
  obtain i j cs where "m = (i, j, cs)" by (cases m)
  with m scan_sound[of i j cs r s k] assms show "Q (snd (snd m))" by simp
qed

lemma findall_one_group:
  "ngroups r = 1 \<Longrightarrow> findall r s = Strs (map (\<lambda>m. group (snd (snd m)) 1) (scan r s 0))"
  by (simp add: findall_def case_prod_beta)

lemma findall_two_groups:
  "ngroups r = 2 \<Longrightarrow>
   findall r s = Tups (map (\<lambda>m. [group (snd (snd m)) 1, group (snd (snd m)) 2]) (scan r s 0))"
proof -
  have "[1 ..< Suc 2] = [1, 2]" by (simp add: upt_rec)
  then show "ngroups r = 2 \<Longrightarrow> ?thesis"
    by (simp add: findall_def case_prod_beta del: upt_Suc)
qed

lemma update_from_Strs: "update_from T (Strs ws) = T \<union> set ws"
  by (simp add: update_from_def)

lemma update_from_Tups: "update_from T (Tups ts) = T \<union> last ` set ts"
  by (cases ts) (simp_all add: update_from_def)

lemma update_from_dollar:
  "update_from T (findall dollar_pattern s) \<subseteq> T \<union> Collect ticker_shape"
proof -
  have n: "ngroups dollar_pattern = 1" by (simp add: dollar_pattern_def)
  have "\<forall>m \<in> set (scan dollar_pattern s 0). ticker_shape (group (snd (snd m)) 1)"
    by (rule scan_all) (rule dollar_pattern_group)
  then show ?thesis
    unfolding findall_one_group[OF n] update_from_Strs by auto
qed

lemma update_from_stock:
  "update_from T (findall stock_pattern s) \<subseteq> T \<union> Collect ticker_shape"
proof -
  have n: "ngroups stock_pattern = 1" by (simp add: stock_pattern_def)
  have "\<forall>m \<in> set (scan stock_pattern s 0). ticker_shape (group (snd (snd m)) 1)"
    by (rule scan_all) (rule stock_pattern_group)
  then show ?thesis
    unfolding findall_one_group[OF n] update_from_Strs by auto
qed

lemma update_from_exchange:
  "update_from T (findall exchange_pattern s) \<subseteq> T \<union> Collect ticker_shape"
proof -
  have n: "ngroups exchange_pattern = 2" by (simp add: exchange_pattern_def)
  have "\<forall>m \<in> set (scan exchange_pattern s 0). ticker_shape (group (snd (snd m)) 2)"
    by (rule scan_all) (rule exchange_pattern_group)
  then show ?thesis
    unfolding findall_two_groups[OF n] update_from_Tups by auto
qed

lemma finite_update_from: "finite T \<Longrightarrow> finite (update_from T ms)"
  by (cases ms) (simp_all add: update_from_Strs update_from_Tups)

lemma candidates_unfold:
  "candidates s =
     update_from (update_from (update_from {} (findall dollar_pattern s))
        (findall stock_pattern s)) (findall exchange_pattern s)"
  by (simp add: candidates_def patterns_def)

lemma finite_candidates: "finite (candidates s)"
  unfolding candidates_unfold by (intro finite_update_from) simp

lemma candidates_shape: "candidates s \<subseteq> Collect ticker_shape"
proof -
  let ?A = "update_from {} (findall dollar_pattern s)"
  let ?B = "update_from ?A (findall stock_pattern s)"
  have "?A \<subseteq> Collect ticker_shape" using update_from_dollar[of "{}" s] by simp
  moreover have "?B \<subseteq> ?A \<union> Collect ticker_shape" by (rule update_from_stock)
  moreover have "candidates s \<subseteq> ?B \<union> Collect ticker_shape"
    unfolding candidates_unfold by (rule update_from_exchange)
  ultimately show ?thesis by blast
qed

lemma detect_set:
  "set (detect_ticker_symbols text) =
     {t \<in> candidates (upper text). t \<notin> false_positives \<and> length t \<le> 5}"
  by (auto simp: detect_ticker_symbols_def candidates_def[symmetric] Let_def finite_candidates)

text \<open>
  Claim C1. For every input text, the list that \<open>_detect_ticker_symbols\<close> returns has no
  duplicates, each of its elements is a string of one to five letters \<open>A\<close> to \<open>Z\<close>,
  none of them is in the stop-list, and the list is sorted lexicographically.
\<close>

theorem detect_ticker_symbols_output:
  "distinct (detect_ticker_symbols text)
   \<and> (\<forall>t \<in> set (detect_ticker_symbols text).
         1 \<le> length t \<and> length t \<le> 5 \<and> (\<forall>c \<in> set t. CHR ''A'' \<le> c \<and> c \<le> CHR ''Z'')
         \<and> t \<notin> false_positives)
   \<and> sorted (detect_ticker_symbols text)"
proof -
  have d: "distinct (detect_ticker_symbols text)"
    by (simp add: detect_ticker_symbols_def Let_def)
  have s: "sorted (detect_ticker_symbols text)"
    by (simp add: detect_ticker_symbols_def Let_def)
  have e: "1 \<le> length t \<and> length t \<le> 5 \<and> (\<forall>c \<in> set t. CHR ''A'' \<le> c \<and> c \<le> CHR ''Z'')
         \<and> t \<notin> false_positives" if "t \<in> set (detect_ticker_symbols text)" for t
  proof -
    from that have t: "t \<in> candidates (upper text)" "t \<notin> false_positives"
      unfolding detect_set by simp_all
    from t(1) candidates_shape have "ticker_shape t" by blast
    with t(2) show ?thesis by (simp add: ticker_shape_def list_all_iff)
  qed
  from d s e show ?thesis by blast
qed

text \<open>An instance: two symbols are found, the stop-word is dropped.\<close>

theorem detect_ticker_symbols_output_witness:
  "detect_ticker_symbols ''$GOOG up, NYSE:IBM flat, $THE'' = [''GOOG'', ''IBM'']
   \<and> distinct (detect_ticker_symbols ''$GOOG up, NYSE:IBM flat, $THE'')
   \<and> sorted (detect_ticker_symbols ''$GOOG up, NYSE:IBM flat, $THE'')
   \<and> ''IBM'' \<in> set (detect_ticker_symbols ''$GOOG up, NYSE:IBM flat, $THE'')
   \<and> 1 \<le> length ''IBM'' \<and> length ''IBM'' \<le> 5
   \<and> ''IBM'' \<notin> false_positives"
proof -
  have v: "detect_ticker_symbols ''$GOOG up, NYSE:IBM flat, $THE'' = [''GOOG'', ''IBM'']"
    by code_simp
  then have m: "''IBM'' \<in> set (detect_ticker_symbols ''$GOOG up, NYSE:IBM flat, $THE'')"
    by simp
  from detect_ticker_symbols_output [of "''$GOOG up, NYSE:IBM flat, $THE''"] m
  have "''IBM'' \<notin> false_positives"
    and "distinct (detect_ticker_symbols ''$GOOG up, NYSE:IBM flat, $THE'')"
    and "sorted (detect_ticker_symbols ''$GOOG up, NYSE:IBM flat, $THE'')"
    by blast+
  with v m show ?thesis by simp
qed

text \<open>
  Claim C2. On the text of the scenario, \<open>_detect_ticker_symbols\<close> returns exactly the
  sorted list of \<open>AAPL\<close> and \<open>MSFT\<close>.
\<close>

theorem detect_ticker_symbols_scenario:
  "detect_ticker_symbols
     ''Apple ($AAPL) beats on strong iPhone sales, NASDAQ:MSFT also rallies''
   = [''AAPL'', ''MSFT'']"
  by code_simp

subsection \<open>The pattern with the word \<open>stock\<close>\<close>

text \<open>
  The patterns are matched against the upper-cased text, and the second pattern spells
  \<open>stock\<close> in lower case. No upper-cased text contains a lower-case letter, so the
  second pattern matches nowhere, whatever the text.
\<close>

lemma upper_char_not_lower: "\<not> (CHR ''a'' \<le> upper_char c \<and> upper_char c \<le> CHR ''z'')"
proof (cases "CHR ''a'' \<le> c \<and> c \<le> CHR ''z''")
  case False
  then show ?thesis by (auto simp: upper_char_def)
next
  case True
  then have r: "97 \<le> (of_char c :: nat)" "(of_char c :: nat) \<le> 122"
    by (simp_all add: less_eq_char_def)
  then have "(of_char c - 32 :: nat) mod 256 = of_char c - 32" by simp
  then have "(of_char (char_of (of_char c - (32::nat)) :: char) :: nat) = of_char c - 32"
    by simp
  with r have "(of_char (upper_char c) :: nat) < 97"
    using True by (simp add: upper_char_def)
  then show ?thesis by (simp add: less_eq_char_def)
qed

lemma no_lower_s_in_upper: "CHR ''s'' \<notin> set (upper text)"
proof
  assume "CHR ''s'' \<in> set (upper text)"
  then obtain c where "upper_char c = CHR ''s''" by (auto simp: upper_def)
  with upper_char_not_lower[of c] show False by (simp add: less_eq_char_def)
qed

lemma rmatch_Lit_stock_upper: "rmatch (Lit ''stock'') (upper text) st = []"
proof (cases st)
  case (Pair i cs)
  have ne: "take (length ''stock'') (drop i (upper text)) \<noteq> ''stock''"
  proof
    assume eq: "take (length ''stock'') (drop i (upper text)) = ''stock''"
    have sub: "set (take (length ''stock'') (drop i (upper text))) \<subseteq> set (upper text)"
      by (meson set_take_subset set_drop_subset subset_trans)
    have "CHR ''s'' \<in> set (take (length ''stock'') (drop i (upper text)))"
      unfolding eq by simp
    with sub have "CHR ''s'' \<in> set (upper text)" by blast
    then show False using no_lower_s_in_upper by blast
  qed
  show ?thesis unfolding Pair using ne by simp
qed

lemma rmatch_stock_pattern_upper: "rmatch stock_pattern (upper text) (i, []) = []"
proof (cases "rmatch stock_pattern (upper text) (i, [])")
  case Nil
  then show ?thesis .
next
  case (Cons st rest)
  obtain j cs where "st = (j, cs)" by (cases st)
  with Cons have "(j, cs) \<in> set (rmatch stock_pattern (upper text) (i, []))" by simp
  then show ?thesis
    unfolding stock_pattern_def rmatch_Seq rmatch_Lit_stock_upper by simp
qed

lemma scan_no_match: "(\<And>i. rmatch r s (i, []) = []) \<Longrightarrow> scan r s k = []"
proof (induction r s k rule: scan.induct)
  case (1 r s k)
  show ?case
  proof (cases "length s < k")
    case True
    then show ?thesis by (subst scan.simps) simp
  next
    case False
    from "1.IH"(1)[OF False "1.prems"(1)] "1.prems" have "scan r s (Suc k) = []" by simp
    with False "1.prems"[of k] show ?thesis by (subst scan.simps) simp
  qed
qed

lemma findall_stock_pattern_upper: "findall stock_pattern (upper text) = Strs []"
proof -
  have "scan stock_pattern (upper text) 0 = []"
    by (rule scan_no_match) (rule rmatch_stock_pattern_upper)
  then show ?thesis by (simp add: findall_def stock_pattern_def)
qed

text \<open>
  Claim C3. A bare token of one to five letters followed by whitespace and the word
  \<open>stock\<close> should be detected; on the text \<open>AAPL stock\<close> the function returns the
  empty list instead, so \<open>AAPL\<close> is not in the result.
\<close>

theorem detect_ticker_symbols_stock_word:
  "detect_ticker_symbols ''AAPL stock'' = []"
  by code_simp

section \<open>Properties of the sentiment analysis\<close>

lemma textblob_total:
  "(if (0::real) < p then p else 0) + (if 0 < p then 0 else \<bar>p\<bar>) + (1 - \<bar>p\<bar>) = 1"
  by simp

text \<open>
  Claim C4. In \<open>_analyze_textblob\<close>, for every polarity \<open>p\<close> between \<open>-1\<close> and \<open>1\<close>:
  the positive score is the magnitude of \<open>p\<close> when \<open>p > 0\<close> and zero otherwise, the
  negative score is the magnitude of \<open>p\<close> when \<open>p \<le> 0\<close> and zero otherwise, the
  neutral score is \<open>1 - |p|\<close>, and the three scores total exactly one after the division
  by their sum. For \<open>p = 0\<close> the whole mass is neutral; for \<open>p = 0.6\<close> the scores are
  0.6 positive, 0.4 neutral, 0 negative, and the label is \<open>positive\<close>.
\<close>

theorem analyze_textblob_conversion:
  assumes "blob_sentiment lib text = (p, sub)" and "- 1 \<le> p" and "p \<le> 1"
  shows "\<exists>a b c l.
           analyze_textblob lib text ''positive_score'' = Some (PyFloat a)
         \<and> analyze_textblob lib text ''negative_score'' = Some (PyFloat b)
         \<and> analyze_textblob lib text ''neutral_score'' = Some (PyFloat c)
         \<and> analyze_textblob lib text ''sentiment_label'' = Some (PyStr l)
         \<and> a = (if p > 0 then \<bar>p\<bar> else 0)
         \<and> b = (if p > 0 then 0 else \<bar>p\<bar>)
         \<and> c = 1 - \<bar>p\<bar>
         \<and> a + b + c = 1
         \<and> (p = 0 \<longrightarrow> a = 0 \<and> b = 0 \<and> c = 1)
         \<and> (p = 6 / 10 \<longrightarrow> a = 6 / 10 \<and> c = 4 / 10 \<and> b = 0 \<and> l = ''positive'')"
  using assms by (simp add: analyze_textblob_def textblob_total)

text \<open>The two instances of the claim, polarity \<open>0\<close> and polarity \<open>0.6\<close>.\<close>

theorem analyze_textblob_conversion_witness:
  "analyze_textblob (fixed_libraries 0) (codes ''results due'') ''positive_score'' = Some (PyFloat 0)
   \<and> analyze_textblob (fixed_libraries 0) (codes ''results due'') ''negative_score'' = Some (PyFloat 0)
   \<and> analyze_textblob (fixed_libraries 0) (codes ''results due'') ''neutral_score'' = Some (PyFloat 1)
   \<and> analyze_textblob (fixed_libraries (6 / 10)) (codes ''a great quarter'') ''positive_score''
       = Some (PyFloat (6 / 10))
   \<and> analyze_textblob (fixed_libraries (6 / 10)) (codes ''a great quarter'') ''neutral_score''
       = Some (PyFloat (4 / 10))
   \<and> analyze_textblob (fixed_libraries (6 / 10)) (codes ''a great quarter'') ''negative_score''
       = Some (PyFloat 0)
   \<and> analyze_textblob (fixed_libraries (6 / 10)) (codes ''a great quarter'') ''sentiment_label''
       = Some (PyStr ''positive'')"
proof -
  have z: "blob_sentiment (fixed_libraries 0) (codes ''results due'') = (0, 1 / 2)"
    by (simp add: fixed_libraries_def)
  have s: "blob_sentiment (fixed_libraries (6 / 10)) (codes ''a great quarter'') = (6 / 10, 1 / 2)"
    by (simp add: fixed_libraries_def)
  from analyze_textblob_conversion [OF z] analyze_textblob_conversion [OF s]
  show ?thesis by auto
qed

text \<open>
  Claim C5. \<open>analyze_text\<close> raises \<open>ValueError\<close> for an unknown model exactly when the
  model name is neither \<open>vader\<close> nor \<open>textblob\<close>; for these two names it returns a
  result, and the result carries the name of the model that was asked for.
\<close>

theorem analyze_text_unknown_model:
  "(analyze_text lib t0 t1 text model = Inl (ValueError (''Unknown model: '' @ model)))
     = (model \<notin> {''vader'', ''textblob''})
   \<and> (\<exists>r. analyze_text lib t0 t1 text model = Inr r \<and> r ''model_name'' = Some (PyStr model))
     = (model \<in> {''vader'', ''textblob''})"
  by (auto simp: analyze_text_def)

text \<open>An instance of each side: an unknown name raises, a registered name returns.\<close>

theorem analyze_text_unknown_model_witness:
  "analyze_text (fixed_libraries 0) 0 1 (codes ''rates rise'') ''bert''
     = Inl (ValueError ''Unknown model: bert'')
   \<and> (\<exists>r. analyze_text (fixed_libraries 0) 0 1 (codes ''rates rise'') ''textblob'' = Inr r
          \<and> r ''model_name'' = Some (PyStr ''textblob''))"
  using analyze_text_unknown_model [of "fixed_libraries 0" 0 1 "codes ''rates rise''" "''bert''"]
    analyze_text_unknown_model [of "fixed_libraries 0" 0 1 "codes ''rates rise''" "''textblob''"]
  by simp

text \<open>A text of whitespace only has no words.\<close>

lemma split_ws_blank: "list_all unicode_space text \<Longrightarrow> split_ws text = []"
proof -
  assume "list_all unicode_space text"
  then have "dropWhile unicode_space text = []" by (simp add: list_all_iff)
  then show ?thesis by (subst split_ws.simps) simp
qed

text \<open>
  Claim C6, as stated, asks for \<open>text_length = 0\<close> on every text that is empty or holds
  whitespace only. On the text of one space the length recorded is \<open>1\<close>.
\<close>

theorem analyze_text_blank_counterexample:
  "field (analyze_text (fixed_libraries 0) 0 0 [0x20] ''vader'') ''text_length''
     = Some (PyInt 1)
   \<and> field (analyze_text (fixed_libraries 0) 0 0 [0x20] ''vader'') ''text_length''
     \<noteq> Some (PyInt 0)"
  by (simp add: field_def analyze_text_def)

text \<open>
  Claim C6, amended. For every text that is empty or holds whitespace only (any
  whitespace of Unicode), and each of the two registered models, in every call in which
  the sentiment library returns its scores, \<open>analyze_text\<close> returns a result and raises
  nothing; its \<open>word_count\<close> is \<open>0\<close> and its \<open>text_length\<close> is the number of
  characters of the text, which is \<open>0\<close> for the empty text and for no other.
\<close>

theorem analyze_text_blank:
  assumes "list_all unicode_space text" and "model \<in> {''vader'', ''textblob''}"
  shows "\<exists>r. analyze_text lib t0 t1 text model = Inr r
            \<and> r ''word_count'' = Some (PyInt 0)
            \<and> r ''text_length'' = Some (PyInt (int (length text)))
            \<and> (r ''text_length'' = Some (PyInt 0)) = (text = [])"
  using assms by (auto simp: analyze_text_def split_ws_blank)

text \<open>
  An instance: a space, a no-break space (U+00A0) and an em space (U+2003) give no word
  and the length three.
\<close>

theorem analyze_text_blank_witness:
  "list_all unicode_space [0x20, 0xA0, 0x2003]
   \<and> (\<exists>r. analyze_text (fixed_libraries 0) 0 0 [0x20, 0xA0, 0x2003] ''vader'' = Inr r
          \<and> r ''word_count'' = Some (PyInt 0)
          \<and> r ''text_length'' = Some (PyInt 3))"
proof -
  have b: "list_all unicode_space [0x20, 0xA0, 0x2003]" by (simp add: unicode_space_def)
  have m: "''vader'' \<in> {''vader'', ''textblob''}" by simp
  from analyze_text_blank [OF b m, of "fixed_libraries 0" 0 0] b
  show ?thesis by auto
qed

section \<open>Properties of the fetcher\<close>

lemma is_retry_503: "is_retry m 503 = (upper m \<in> set allowed_methods)"
  by (simp add: is_retry_def status_forcelist_def)

lemma is_retry_200: "\<not> is_retry m 200"
  by (simp add: is_retry_def status_forcelist_def)

text \<open>
  Against a server that always answers 503, a method that may be repeated uses up every
  retry and ends in the error of the exhausted retries; any other method gets the first
  answer back.
\<close>

lemma send_all_503_retried:
  assumes "\<forall>k. \<exists>b. srv k = Http 503 b" and "upper m \<in> set allowed_methods"
  shows "send n m srv k = (RequestException ''RetryError'', Suc (k + n))"
proof (induction n arbitrary: k)
  case 0
  from assms(1) obtain b where "srv k = Http 503 b" by blast
  then show ?case by (simp add: is_retry_503 assms(2))
next
  case (Suc n)
  from assms(1) obtain b where "srv k = Http 503 b" by blast
  then show ?case by (simp add: is_retry_503 assms(2) Suc.IH)
qed

lemma send_503_not_retried:
  assumes "srv k = Http 503 b" and "upper m \<notin> set allowed_methods"
  shows "send n m srv k = (Response 503 b, Suc k)"
  using assms by (cases n) (simp_all add: is_retry_503)

lemma make_request_failure:
  "out = RequestException e \<or> (\<exists>b. out = Response 503 b) \<Longrightarrow>
   make_request s out = (Inr None, count_failure (count_request s))"
  by (auto simp: make_request_def Let_def)

text \<open>
  Claim C7. When every answer of the server is 503 and \<open>max_retries = 3\<close>,
  \<open>_make_request\<close> returns \<open>None\<close> to its caller and raises nothing, and
  \<open>failed_requests\<close> grows by exactly one, however many attempts the session made: four
  for a method that is repeated, one for any other.
\<close>

theorem fetch_all_503:
  assumes "max_retries s = 3" and "\<forall>k. \<exists>b. srv k = Http 503 b"
  shows "fst (fetch s method srv) = Inr None
       \<and> failed_requests (stats (snd (fetch s method srv))) = failed_requests (stats s) + 1
       \<and> successful_requests (stats (snd (fetch s method srv))) = successful_requests (stats s)
       \<and> requests_made (stats (snd (fetch s method srv))) = requests_made (stats s) + 1
       \<and> snd (session_request (max_retries s) method srv)
           = (if upper method \<in> set allowed_methods then 4 else 1)"
proof -
  from assms(2) obtain b where b: "srv 0 = Http 503 b" by blast
  have r: "session_request (max_retries s) method srv =
             (if upper method \<in> set allowed_methods then (RequestException ''RetryError'', 4)
              else (Response 503 b, 1))"
    by (simp add: session_request_def assms(1) send_all_503_retried[OF assms(2)]
        send_503_not_retried[where srv = srv and k = 0 and b = b, OF b])
  then have "fst (session_request (max_retries s) method srv) = RequestException ''RetryError''
        \<or> (\<exists>b. fst (session_request (max_retries s) method srv) = Response 503 b)"
    by simp
  then have "fetch s method srv = (Inr None, count_failure (count_request s))"
    unfolding fetch_def by (rule make_request_failure)
  then show ?thesis using r
    by (simp add: count_failure_def count_request_def)
qed

text \<open>An instance: the default scraper, a \<open>GET\<close>, the server that always answers 503.\<close>

theorem fetch_all_503_witness:
  "max_retries default_scraper = 3 \<and> (\<forall>k. \<exists>b. always_503 k = Http 503 b)
   \<and> fst (fetch default_scraper ''GET'' always_503) = Inr None
   \<and> failed_requests (stats (snd (fetch default_scraper ''GET'' always_503))) = 1
   \<and> requests_made (stats (snd (fetch default_scraper ''GET'' always_503))) = 1"
proof -
  have m: "max_retries default_scraper = 3" by (simp add: default_scraper_def init_def)
  have a: "\<forall>k. \<exists>b. always_503 k = Http 503 b" by (simp add: always_503_def)
  have z: "failed_requests (stats default_scraper) = 0" "requests_made (stats default_scraper) = 0"
    by (simp_all add: default_scraper_def init_def)
  from fetch_all_503 [OF m a, of "''GET''"] m a z show ?thesis by simp
qed

text \<open>
  Claim C8, as stated, asks for three request attempts recorded in the stats after the
  answers 503, 503, 200. The counter \<open>requests_made\<close> of the default scraper is \<open>1\<close>
  after that call, not \<open>3\<close>.
\<close>

theorem fetch_retry_counterexample:
  "requests_made (stats (snd (fetch default_scraper ''GET'' twice_503_then_200))) = 1
   \<and> requests_made (stats (snd (fetch default_scraper ''GET'' twice_503_then_200))) \<noteq> 3"
  by code_simp

text \<open>
  Claim C8, amended. When the answers of the server are 503, 503, 200,
  \<open>max_retries = 3\<close> and the method is one that the retry strategy repeats (\<open>GET\<close> is),
  \<open>_make_request\<close> returns the response with its body, \<open>successful_requests\<close> grows by
  one, \<open>failed_requests\<close> is unchanged, and \<open>requests_made\<close> grows by exactly one: the
  three attempts are made inside the session and are not recorded in the stats.
\<close>

theorem fetch_retry:
  assumes "max_retries s = 3"
    and "srv 0 = Http 503 b0" and "srv 1 = Http 503 b1" and "srv 2 = Http 200 body"
    and "upper method \<in> set allowed_methods"
  shows "fst (fetch s method srv) = Inr (Some (200, body))
       \<and> successful_requests (stats (snd (fetch s method srv))) = successful_requests (stats s) + 1
       \<and> failed_requests (stats (snd (fetch s method srv))) = failed_requests (stats s)
       \<and> requests_made (stats (snd (fetch s method srv))) = requests_made (stats s) + 1
       \<and> snd (session_request (max_retries s) method srv) = 3"
proof -
  have s1: "srv (Suc 0) = Http 503 b1" using assms(3) by simp
  have s2: "srv (Suc (Suc 0)) = Http 200 body" using assms(4) by (simp add: numeral_2_eq_2)
  have "send (Suc (Suc (Suc 0))) method srv 0 = (Response 200 body, Suc (Suc (Suc 0)))"
    using assms(2,5) s1 s2 by (simp add: is_retry_503 is_retry_200)
  then have "session_request (max_retries s) method srv = (Response 200 body, 3)"
    by (simp add: session_request_def assms(1) numeral_3_eq_3)
  then show ?thesis
    by (simp add: fetch_def make_request_def Let_def count_success_def count_request_def)
qed

text \<open>An instance: the default scraper and a \<open>GET\<close>.\<close>

theorem fetch_retry_witness:
  "fst (fetch default_scraper ''GET'' twice_503_then_200) = Inr (Some (200, ''ok''))
   \<and> successful_requests (stats (snd (fetch default_scraper ''GET'' twice_503_then_200))) = 1
   \<and> requests_made (stats (snd (fetch default_scraper ''GET'' twice_503_then_200))) = 1
   \<and> snd (session_request (max_retries default_scraper) ''GET'' twice_503_then_200) = 3"
proof -
  have m: "max_retries default_scraper = 3" by (simp add: default_scraper_def init_def)
  have u: "upper ''GET'' \<in> set allowed_methods" by code_simp
  have z: "successful_requests (stats default_scraper) = 0"
    "requests_made (stats default_scraper) = 0"
    by (simp_all add: default_scraper_def init_def)
  have "twice_503_then_200 0 = Http 503 ''Service Unavailable''"
    "twice_503_then_200 1 = Http 503 ''Service Unavailable''"
    "twice_503_then_200 2 = Http 200 ''ok''"
    by (simp_all add: twice_503_then_200_def)
  from fetch_retry [OF m this u] z show ?thesis by simp
qed

text \<open>
  Claim C9, as stated, asks that \<open>start_scraping\<close> resets the counters to zero. After
  one failed request on the default scraper, \<open>start_scraping\<close> leaves
  \<open>requests_made\<close> and \<open>failed_requests\<close> at \<open>1\<close>.
\<close>

theorem start_scraping_counterexample:
  "requests_made (stats (start_scraping (snd (fetch default_scraper ''GET'' always_503)) 0)) = 1
   \<and> failed_requests (stats (start_scraping (snd (fetch default_scraper ''GET'' always_503)) 0)) = 1
   \<and> requests_made (stats (start_scraping (snd (fetch default_scraper ''GET'' always_503)) 0)) \<noteq> 0"
  by code_simp

text \<open>
  Claim C9, amended. \<open>start_scraping\<close> records the start time and leaves the four
  counters (requests attempted, succeeded, failed, items produced) as they are; the
  counters are zero in a scraper that has just been constructed.
\<close>

theorem start_scraping_keeps_counters:
  "requests_made (stats (start_scraping s now)) = requests_made (stats s)
   \<and> successful_requests (stats (start_scraping s now)) = successful_requests (stats s)
   \<and> failed_requests (stats (start_scraping s now)) = failed_requests (stats s)
   \<and> items_scraped (stats (start_scraping s now)) = items_scraped (stats s)
   \<and> start_time (stats (start_scraping s now)) = Some now
   \<and> requests_made (stats (init d r t a)) = 0
   \<and> successful_requests (stats (init d r t a)) = 0
   \<and> failed_requests (stats (init d r t a)) = 0
   \<and> items_scraped (stats (init d r t a)) = 0"
  by (simp add: start_scraping_def init_def)

text \<open>
  Claim C10, as stated, covers every call. A call in which an error of a class other
  than \<open>RequestException\<close> is raised increments \<open>requests_made\<close> only: from the all-zero
  stats the counters are then 1, 0 and 0, and the invariant is broken.
\<close>

theorem make_request_counters_counterexample:
  "requests_made (stats (calls default_scraper [OtherException ''TypeError''])) = 1
   \<and> successful_requests (stats (calls default_scraper [OtherException ''TypeError''])) = 0
   \<and> failed_requests (stats (calls default_scraper [OtherException ''TypeError''])) = 0
   \<and> requests_made (stats (calls default_scraper [OtherException ''TypeError'']))
       \<noteq> successful_requests (stats (calls default_scraper [OtherException ''TypeError'']))
         + failed_requests (stats (calls default_scraper [OtherException ''TypeError'']))"
  by (simp add: calls_def make_request_def Let_def count_request_def default_scraper_def
      init_def)

text \<open>
  A call returns exactly when the \<open>try\<close> block does not end in an error of another
  class. A call that returns counts itself once, and once more as a success or as a
  failure.
\<close>

lemma returns_iff: "returns out = (\<exists>r. fst (make_request s out) = Inr r)"
  by (cases out) (simp_all add: returns_def make_request_def Let_def)

lemma make_request_step:
  assumes "returns out"
  shows "requests_made (stats (snd (make_request s out))) = requests_made (stats s) + 1
       \<and> ((successful_requests (stats (snd (make_request s out))) = successful_requests (stats s) + 1
            \<and> failed_requests (stats (snd (make_request s out))) = failed_requests (stats s))
          \<or> (successful_requests (stats (snd (make_request s out))) = successful_requests (stats s)
            \<and> failed_requests (stats (snd (make_request s out))) = failed_requests (stats s) + 1))"
  using assms
  by (cases out)
     (simp_all add: returns_def make_request_def Let_def count_request_def count_success_def
        count_failure_def)

lemma balanced_step: "returns out \<Longrightarrow> balanced s \<Longrightarrow> balanced (snd (make_request s out))"
  using make_request_step[of out s] by (auto simp: balanced_def)

lemma balanced_calls: "list_all returns outs \<Longrightarrow> balanced s \<Longrightarrow> balanced (calls s outs)"
  unfolding calls_def
  by (induction outs arbitrary: s) (simp_all add: balanced_step)

lemma balanced_init: "balanced (init d r t a)"
  by (simp add: balanced_def init_def)

text \<open>
  Claim C10, amended. Every call to \<open>_make_request\<close> that returns to its caller
  increments \<open>requests_made\<close> by exactly one and exactly one of \<open>successful_requests\<close>
  and \<open>failed_requests\<close> by exactly one; so, starting from the all-zero stats of a new
  scraper, \<open>requests_made = successful_requests + failed_requests\<close> holds after every
  sequence of calls that all return. Every call that lets an error leave the function
  has incremented \<open>requests_made\<close> by one and neither of the two other counters.
\<close>

theorem make_request_counters:
  assumes "fst (make_request s out) = Inr res" and "list_all returns outs"
  shows "requests_made (stats (snd (make_request s out))) = requests_made (stats s) + 1
       \<and> ((successful_requests (stats (snd (make_request s out))) = successful_requests (stats s) + 1
            \<and> failed_requests (stats (snd (make_request s out))) = failed_requests (stats s))
          \<or> (successful_requests (stats (snd (make_request s out))) = successful_requests (stats s)
            \<and> failed_requests (stats (snd (make_request s out))) = failed_requests (stats s) + 1))
       \<and> requests_made (stats (calls (init d r t a) outs))
           = successful_requests (stats (calls (init d r t a) outs))
             + failed_requests (stats (calls (init d r t a) outs))
       \<and> (\<forall>s' out' err. fst (make_request s' out') = Inl err \<longrightarrow>
             requests_made (stats (snd (make_request s' out'))) = requests_made (stats s') + 1
           \<and> successful_requests (stats (snd (make_request s' out')))
               = successful_requests (stats s')
           \<and> failed_requests (stats (snd (make_request s' out'))) = failed_requests (stats s'))"
proof -
  from assms(1) have "returns out" using returns_iff[of out s] by blast
  from make_request_step[OF this, of s] balanced_calls[OF assms(2) balanced_init, of d r t a]
  have first: "requests_made (stats (snd (make_request s out))) = requests_made (stats s) + 1
       \<and> ((successful_requests (stats (snd (make_request s out))) = successful_requests (stats s) + 1
            \<and> failed_requests (stats (snd (make_request s out))) = failed_requests (stats s))
          \<or> (successful_requests (stats (snd (make_request s out))) = successful_requests (stats s)
            \<and> failed_requests (stats (snd (make_request s out))) = failed_requests (stats s) + 1))
       \<and> requests_made (stats (calls (init d r t a) outs))
           = successful_requests (stats (calls (init d r t a) outs))
             + failed_requests (stats (calls (init d r t a) outs))"
    by (simp add: balanced_def)
  have second: "requests_made (stats (snd (make_request s' out'))) = requests_made (stats s') + 1
           \<and> successful_requests (stats (snd (make_request s' out')))
               = successful_requests (stats s')
           \<and> failed_requests (stats (snd (make_request s' out'))) = failed_requests (stats s')"
    if "fst (make_request s' out') = Inl err" for s' out' err
    using that
    by (cases out')
       (simp_all add: make_request_def Let_def count_request_def split: if_splits)
  from first second show ?thesis by blast
qed

text \<open>
  An instance: a call that succeeds, a sequence of two calls that fail, and a call that
  an error of another class leaves.
\<close>

theorem make_request_counters_witness:
  "fst (make_request default_scraper (Response 200 ''ok'')) = Inr (Some (200, ''ok''))
   \<and> list_all returns [Response 404 [], RequestException ''Timeout'']
   \<and> requests_made (stats (snd (make_request default_scraper (Response 200 ''ok'')))) = 1
   \<and> requests_made (stats (calls (init 1 3 30 None)
         [Response 404 [], RequestException ''Timeout'']))
       = successful_requests (stats (calls (init 1 3 30 None)
           [Response 404 [], RequestException ''Timeout'']))
         + failed_requests (stats (calls (init 1 3 30 None)
             [Response 404 [], RequestException ''Timeout'']))
   \<and> fst (make_request default_scraper (OtherException ''TypeError'')) = Inl ''TypeError''
   \<and> requests_made (stats (snd (make_request default_scraper (OtherException ''TypeError''))))
       = 1
   \<and> successful_requests
         (stats (snd (make_request default_scraper (OtherException ''TypeError'')))) = 0
   \<and> failed_requests
         (stats (snd (make_request default_scraper (OtherException ''TypeError'')))) = 0"
proof -
  have r: "fst (make_request default_scraper (Response 200 ''ok'')) = Inr (Some (200, ''ok''))"
    by (simp add: make_request_def Let_def)
  have l: "list_all returns [Response 404 [], RequestException ''Timeout'']"
    by (simp add: returns_def)
  have e: "fst (make_request default_scraper (OtherException ''TypeError'')) = Inl ''TypeError''"
    by (simp add: make_request_def Let_def)
  have z: "requests_made (stats default_scraper) = 0"
    "successful_requests (stats default_scraper) = 0"
    "failed_requests (stats default_scraper) = 0"
    by (simp_all add: default_scraper_def init_def)
  from make_request_counters [OF r l, of 1 3 30 None] e
  have "requests_made (stats (snd (make_request default_scraper (OtherException ''TypeError''))))
          = requests_made (stats default_scraper) + 1
      \<and> successful_requests
          (stats (snd (make_request default_scraper (OtherException ''TypeError''))))
          = successful_requests (stats default_scraper)
      \<and> failed_requests
          (stats (snd (make_request default_scraper (OtherException ''TypeError''))))
          = failed_requests (stats default_scraper)"
    by blast
  with make_request_counters [OF r l, of 1 3 30 None] r l e z
  show ?thesis by simp
qed

end
